theory Spec2Isabelle
  imports Complex_Main "HOL-Library.Word" "HOL-Library.Log_Nat"
begin

section \<open>Access control (internal/security)\<close>

subsection \<open>Authenticator\<close>

text \<open>
  The struct \<^verbatim>\<open>Authenticator{username, password, enabled}\<close>. The field
  \<^verbatim>\<open>enabled\<close> occurs in three structs of the package; each record gives it
  its own prefix.
\<close>

record Authenticator =
  username :: string
  password :: string
  auth_enabled :: bool

definition NewAuthenticator :: "string \<Rightarrow> string \<Rightarrow> Authenticator" where
  "NewAuthenticator u p = \<lparr>username = u, password = p, auth_enabled = True\<rparr>"

definition Authenticate :: "Authenticator \<Rightarrow> string \<Rightarrow> string \<Rightarrow> bool" where
  "Authenticate a u p =
     (if \<not> auth_enabled a then True
      else u = username a \<and> p = password a)"

definition IsEnabled :: "Authenticator \<Rightarrow> bool" where
  "IsEnabled a = auth_enabled a"

subsection \<open>IPWhitelist\<close>

text \<open>
  \<^verbatim>\<open>allowedIPs map[string]bool\<close> is a partial map; reading a missing key of a Go
  map gives the zero value \<^verbatim>\<open>false\<close>. The read/write lock serialises the
  operations, so each one is a function from the state to the next state.
\<close>

record IPWhitelist =
  allowedIPs :: "string \<rightharpoonup> bool"
  wl_enabled :: bool

definition NewIPWhitelist :: "string list \<Rightarrow> IPWhitelist" where
  "NewIPWhitelist ips =
     \<lparr>allowedIPs = fold (\<lambda>ip m. m(ip \<mapsto> True)) ips Map.empty,
      wl_enabled = (length ips > 0)\<rparr>"

definition IsAllowed :: "IPWhitelist \<Rightarrow> string \<Rightarrow> bool" where
  "IsAllowed w ip =
     (if \<not> wl_enabled w then True
      else (case allowedIPs w ip of None \<Rightarrow> False | Some b \<Rightarrow> b))"

definition AddIP :: "IPWhitelist \<Rightarrow> string \<Rightarrow> IPWhitelist" where
  "AddIP w ip = w\<lparr>allowedIPs := (allowedIPs w)(ip \<mapsto> True)\<rparr>"

definition RemoveIP :: "IPWhitelist \<Rightarrow> string \<Rightarrow> IPWhitelist" where
  "RemoveIP w ip = w\<lparr>allowedIPs := (allowedIPs w)(ip := None)\<rparr>"

text \<open>A caller's sequence of runtime updates of one whitelist.\<close>

datatype wl_op = OpAddIP string | OpRemoveIP string

fun wl_apply :: "IPWhitelist \<Rightarrow> wl_op \<Rightarrow> IPWhitelist" where
  "wl_apply w (OpAddIP ip) = AddIP w ip"
| "wl_apply w (OpRemoveIP ip) = RemoveIP w ip"

definition wl_run :: "IPWhitelist \<Rightarrow> wl_op list \<Rightarrow> IPWhitelist" where
  "wl_run w ops = foldl wl_apply w ops"

text \<open>
  The reference reading of the updates: the set of addresses that were listed or added
  and not removed since.
\<close>

fun listed_apply :: "string set \<Rightarrow> wl_op \<Rightarrow> string set" where
  "listed_apply S (OpAddIP ip) = insert ip S"
| "listed_apply S (OpRemoveIP ip) = S - {ip}"

definition listed :: "string list \<Rightarrow> wl_op list \<Rightarrow> string set" where
  "listed ips ops = foldl listed_apply (set ips) ops"

section \<open>Admission gate (internal/pipeline/pool.go)\<close>

text \<open>
  \<^verbatim>\<open>ConnectionPool{maxConnections, activeConn int}\<close>. The counter only moves
  between 0 and \<^verbatim>\<open>maxConnections\<close>, so Go's 64-bit \<^verbatim>\<open>int\<close> never wraps here
  and is read as a mathematical integer. The logger is not part of the state.
\<close>

record ConnectionPool =
  maxConnections :: int
  activeConn :: int

definition NewConnectionPool :: "int \<Rightarrow> ConnectionPool" where
  "NewConnectionPool m = \<lparr>maxConnections = m, activeConn = 0\<rparr>"

definition CanAccept :: "ConnectionPool \<Rightarrow> bool" where
  "CanAccept cp = (activeConn cp < maxConnections cp)"

definition AddConnection :: "ConnectionPool \<Rightarrow> bool \<times> ConnectionPool" where
  "AddConnection cp =
     (if activeConn cp \<ge> maxConnections cp then (False, cp)
      else (True, cp\<lparr>activeConn := activeConn cp + 1\<rparr>))"

definition RemoveConnection :: "ConnectionPool \<Rightarrow> ConnectionPool" where
  "RemoveConnection cp =
     (if activeConn cp > 0 then cp\<lparr>activeConn := activeConn cp - 1\<rparr> else cp)"

definition GetActiveConnections :: "ConnectionPool \<Rightarrow> int" where
  "GetActiveConnections cp = activeConn cp"

text \<open>\<open>n\<close> consecutive calls of \<^verbatim>\<open>AddConnection\<close>: the results in call order and
  the pool afterwards.\<close>

fun add_connections :: "nat \<Rightarrow> ConnectionPool \<Rightarrow> bool list \<times> ConnectionPool" where
  "add_connections 0 cp = ([], cp)"
| "add_connections (Suc n) cp =
     (let (r, cp') = AddConnection cp;
          (rs, cp'') = add_connections n cp'
      in (r # rs, cp''))"

section \<open>Rate limiter (internal/security)\<close>

subsection \<open>float64\<close>

text \<open>
  A \<^verbatim>\<open>float64\<close> value is the rational it denotes. Every conversion and arithmetic
  operation gives the exact result rounded to 53 significant bits, ties to the even
  significand. The exponent range is not bounded here: the values of the rate limiter
  (integers of at most 64 bits, their thousandths, products and sums of these) stay
  far inside it. \<open>exponent x\<close> is the integer \<open>e\<close> with \<open>2\<^sup>e \<le> |x| < 2\<^sup>e\<^sup>+\<^sup>1\<close>.
\<close>

definition exponent :: "rat \<Rightarrow> int" where
  "exponent x =
     (let (p, q) = quotient_of \<bar>x\<bar>; e = bitlen p - bitlen q
      in if 2 powi e \<le> \<bar>x\<bar> then e else e - 1)"

definition round_even :: "rat \<Rightarrow> int" where
  "round_even q =
     (let f = \<lfloor>q\<rfloor>; d = q - of_int f
      in if d < 1 / 2 then f else if 1 / 2 < d then f + 1 else if even f then f else f + 1)"

definition float64 :: "rat \<Rightarrow> rat" where
  "float64 x =
     (if x = 0 then 0
      else (let u = 2 powi (exponent x - 52) in of_int (round_even (x / u)) * u))"

subsection \<open>Token buckets\<close>

text \<open>
  \<^verbatim>\<open>time.Time\<close> is an instant in nanoseconds; \<^verbatim>\<open>time.Now()\<close> is an argument of
  \<^verbatim>\<open>Allow\<close>. \<^verbatim>\<open>Duration.Milliseconds\<close> divides by \<open>10\<^sup>6\<close> truncating towards
  zero. A bucket is a pointer stored in the map; writing through it is an update of
  the map entry. Each floating-point operation is rounded on its own.
\<close>

record tokenBucket =
  tokens :: rat
  lastTime :: int
  ratePerMs :: rat

record RateLimiter =
  requestsPerSecond :: int
  buckets :: "string \<rightharpoonup> tokenBucket"
  rl_enabled :: bool

definition NewRateLimiter :: "int \<Rightarrow> bool \<Rightarrow> RateLimiter" where
  "NewRateLimiter rps en =
     \<lparr>requestsPerSecond = rps, buckets = Map.empty, rl_enabled = en\<rparr>"

definition Milliseconds :: "int \<Rightarrow> int" where
  "Milliseconds d = (if d \<ge> 0 then d div 1000000 else - ((- d) div 1000000))"

definition minFloat :: "rat \<Rightarrow> rat \<Rightarrow> rat" where
  "minFloat a b = (if a < b then a else b)"

definition Allow :: "RateLimiter \<Rightarrow> string \<Rightarrow> int \<Rightarrow> bool \<times> RateLimiter" where
  "Allow rl identifier now =
     (if \<not> rl_enabled rl then (True, rl)
      else
        (case buckets rl identifier of
           None \<Rightarrow>
             (True,
              rl\<lparr>buckets := (buckets rl)(identifier \<mapsto>
                    \<lparr>tokens = float64 (of_int (requestsPerSecond rl)),
                     lastTime = now,
                     ratePerMs = float64 (float64 (of_int (requestsPerSecond rl)) / 1000)\<rparr>)\<rparr>)
         | Some bucket \<Rightarrow>
             (let elapsed = Milliseconds (now - lastTime bucket);
                  tokensToAdd = float64 (float64 (of_int elapsed) * ratePerMs bucket);
                  t = minFloat (float64 (of_int (requestsPerSecond rl)))
                        (float64 (tokens bucket + tokensToAdd));
                  bucket' = bucket\<lparr>tokens := t, lastTime := now\<rparr>
              in if t \<ge> 1
                 then (True, rl\<lparr>buckets := (buckets rl)(identifier \<mapsto>
                                 bucket'\<lparr>tokens := float64 (t - 1)\<rparr>)\<rparr>)
                 else (False, rl\<lparr>buckets := (buckets rl)(identifier \<mapsto> bucket')\<rparr>))))"

text \<open>\<open>n\<close> calls of \<^verbatim>\<open>Allow\<close> for one identifier, all at the instant \<open>now\<close>.\<close>

fun allow_burst :: "nat \<Rightarrow> RateLimiter \<Rightarrow> string \<Rightarrow> int \<Rightarrow> bool list \<times> RateLimiter" where
  "allow_burst 0 rl identifier now = ([], rl)"
| "allow_burst (Suc n) rl identifier now =
     (let (r, rl') = Allow rl identifier now;
          (rs, rl'') = allow_burst n rl' identifier now
      in (r # rs, rl''))"

section \<open>Channels\<close>

text \<open>
  A Go channel made with \<^verbatim>\<open>make(chan T, n)\<close>: the buffered values in arrival order,
  the capacity, and whether \<^verbatim>\<open>close\<close> has been called. Goroutines waiting on the
  channel are not part of this state: a send that the runtime hands straight to a
  waiting receiver is a buffered send followed by that receiver's receive. A receiver
  waits only on an empty buffer, where a channel of capacity one or more takes the
  buffered send as well. The model is therefore that of a buffered channel: an
  unbuffered one (capacity 0), where a send succeeds exactly when a receiver waits,
  is outside it, and what is proved of sends is proved for capacity one or more.
\<close>

record 'a chan =
  buf :: "'a list"
  cap :: nat
  closed :: bool

definition make_chan :: "nat \<Rightarrow> 'a chan" where
  "make_chan n = \<lparr>buf = [], cap = n, closed = False\<rparr>"

text \<open>A function either returns or panics (the Go runtime then ends the process).\<close>

datatype 'a outcome = Panicked | Returned 'a

text \<open>
  \<^verbatim>\<open>select { case ch <- v: ... default: ... }\<close>: the send on a closed channel
  panics; otherwise the send case runs when a slot is free, the default case when not.
\<close>

datatype 'a sent = SendPanic | SendOk "'a chan" | SendDefault

definition try_send :: "'a chan \<Rightarrow> 'a \<Rightarrow> 'a sent" where
  "try_send ch v =
     (if closed ch then SendPanic
      else if length (buf ch) < cap ch then SendOk (ch\<lparr>buf := buf ch @ [v]\<rparr>)
      else SendDefault)"

text \<open>
  A receive: the oldest buffered value if there is one (also after \<^verbatim>\<open>close\<close>);
  on an empty closed channel the zero value with \<^verbatim>\<open>ok = false\<close>; on an empty open
  channel the receiver waits.
\<close>

datatype 'a received = RecvWait | RecvVal 'a "'a chan" | RecvClosed

definition recv :: "'a chan \<Rightarrow> 'a received" where
  "recv ch =
     (case buf ch of
        v # vs \<Rightarrow> RecvVal v (ch\<lparr>buf := vs\<rparr>)
      | [] \<Rightarrow> if closed ch then RecvClosed else RecvWait)"

definition close_chan :: "'a chan \<Rightarrow> 'a chan outcome" where
  "close_chan ch = (if closed ch then Panicked else Returned (ch\<lparr>closed := True\<rparr>))"

section \<open>Collector (internal/pipeline/collector.go)\<close>

text \<open>
  \<^verbatim>\<open>int64\<close> fields are 64-bit words; \<^verbatim>\<open>Port\<close> is an \<^verbatim>\<open>int\<close> that is only
  copied; \<^verbatim>\<open>time.Time\<close> is an instant in nanoseconds counted from Go's zero
  \<^verbatim>\<open>Time\<close>, so the zero value is 0.
\<close>

record RawTrafficEvent =
  SourceIP :: string
  DestinationIP :: string
  Domain :: string
  Port :: int
  Timestamp :: int
  LatencyMs :: "64 word"
  BytesIn :: "64 word"
  BytesOut :: "64 word"
  Protocol :: string

text \<open>
  \<^verbatim>\<open>Collect\<close> on the collector's channel \<^verbatim>\<open>c.out\<close>: the returned \<^verbatim>\<open>error\<close>
  (\<open>None\<close> is \<^verbatim>\<open>nil\<close>) and the channel afterwards. The warning written in the
  default case goes to the logger, which is not part of the state.
\<close>

definition Collect ::
  "RawTrafficEvent chan \<Rightarrow> RawTrafficEvent \<Rightarrow> (string option \<times> RawTrafficEvent chan) outcome" where
  "Collect out event =
     (case try_send out event of
        SendPanic \<Rightarrow> Panicked
      | SendOk out' \<Rightarrow> Returned (None, out')
      | SendDefault \<Rightarrow> Returned (None, out))"

section \<open>Normalizer (internal/pipeline/normalizer.go, internal/models/traffic.go)\<close>

text \<open>
  \<^verbatim>\<open>models.TrafficLog\<close>: \<^verbatim>\<open>ID uint\<close>, the nine fields of the event,
  \<^verbatim>\<open>CreatedAt time.Time\<close> and \<^verbatim>\<open>DeletedAt gorm.DeletedAt\<close> (a nullable time,
  \<open>None\<close> when not valid).
\<close>

record TrafficLog =
  log_ID :: nat
  log_SourceIP :: string
  log_DestinationIP :: string
  log_Domain :: string
  log_Port :: int
  log_Timestamp :: int
  log_LatencyMs :: "64 word"
  log_BytesIn :: "64 word"
  log_BytesOut :: "64 word"
  log_Protocol :: string
  log_CreatedAt :: int
  log_DeletedAt :: "int option"

text \<open>
  The struct literal built in \<^verbatim>\<open>process\<close>: the fields it does not name keep their
  zero values.
\<close>

definition normalize :: "RawTrafficEvent \<Rightarrow> TrafficLog" where
  "normalize event =
     \<lparr>log_ID = 0,
      log_SourceIP = SourceIP event,
      log_DestinationIP = DestinationIP event,
      log_Domain = Domain event,
      log_Port = Port event,
      log_Timestamp = Timestamp event,
      log_LatencyMs = LatencyMs event,
      log_BytesIn = BytesIn event,
      log_BytesOut = BytesOut event,
      log_Protocol = Protocol event,
      log_CreatedAt = 0,
      log_DeletedAt = None\<rparr>"

text \<open>
  A worker goroutine running \<^verbatim>\<open>process\<close> is at the head of its
  \<^verbatim>\<open>for event := range n.in\<close> loop, or holds the record it built and is about to
  send, or has left the loop, or has panicked.
\<close>

datatype worker = AtRange | Sending TrafficLog | Exited | Crashed

text \<open>
  The two channels made in \<^verbatim>\<open>main\<close> and the workers started by
  \<^verbatim>\<open>Normalizer.Start\<close>. The normalizer keeps no count of its workers and no
  wait group.
\<close>

record pipeline =
  collectorChan :: "RawTrafficEvent chan"
  normalizerOutputChan :: "TrafficLog chan"
  workers :: "worker list"

definition initializePipeline :: "nat \<Rightarrow> pipeline" where
  "initializePipeline bufferSize =
     \<lparr>collectorChan = make_chan bufferSize,
      normalizerOutputChan = make_chan bufferSize,
      workers = []\<rparr>"

definition Normalizer_Start :: "nat \<Rightarrow> pipeline \<Rightarrow> pipeline" where
  "Normalizer_Start numWorkers s = s\<lparr>workers := workers s @ replicate numWorkers AtRange\<rparr>"

text \<open>One scheduling step of one worker's \<^verbatim>\<open>process\<close> loop.\<close>

definition process_step :: "worker \<Rightarrow> pipeline \<Rightarrow> worker \<times> pipeline" where
  "process_step w s =
     (case w of
        AtRange \<Rightarrow>
          (case recv (collectorChan s) of
             RecvWait \<Rightarrow> (AtRange, s)
           | RecvVal event ch \<Rightarrow> (Sending (normalize event), s\<lparr>collectorChan := ch\<rparr>)
           | RecvClosed \<Rightarrow> (Exited, s))
      | Sending trafficLog \<Rightarrow>
          (case try_send (normalizerOutputChan s) trafficLog of
             SendPanic \<Rightarrow> (Crashed, s)
           | SendOk ch \<Rightarrow> (AtRange, s\<lparr>normalizerOutputChan := ch\<rparr>)
           | SendDefault \<Rightarrow> (AtRange, s))
      | Exited \<Rightarrow> (Exited, s)
      | Crashed \<Rightarrow> (Crashed, s))"

definition worker_step :: "nat \<Rightarrow> pipeline \<Rightarrow> pipeline" where
  "worker_step i s =
     (if i < length (workers s)
      then (let (w, s') = process_step (workers s ! i) s
            in s'\<lparr>workers := (workers s)[i := w]\<rparr>)
      else s)"

text \<open>\<^verbatim>\<open>Normalizer.Close\<close> is \<^verbatim>\<open>close(n.out)\<close> and nothing else.\<close>

definition Normalizer_Close :: "pipeline \<Rightarrow> pipeline outcome" where
  "Normalizer_Close s =
     (case close_chan (normalizerOutputChan s) of
        Panicked \<Rightarrow> Panicked
      | Returned ch \<Rightarrow> Returned (s\<lparr>normalizerOutputChan := ch\<rparr>))"

text \<open>
  The pipeline part of the shutdown sequence of \<^verbatim>\<open>main\<close>, after the proxy's listener
  is closed and \<^verbatim>\<open>publisher.Stop()\<close> has returned (neither touches the channels):
  \<^verbatim>\<open>normalizer.Close()\<close>, then \<^verbatim>\<open>close(collectorChan)\<close>.
\<close>

definition main_shutdown :: "pipeline \<Rightarrow> pipeline outcome" where
  "main_shutdown s =
     (case Normalizer_Close s of
        Panicked \<Rightarrow> Panicked
      | Returned s' \<Rightarrow>
          (case close_chan (collectorChan s') of
             Panicked \<Rightarrow> Panicked
           | Returned ch \<Rightarrow> Returned (s'\<lparr>collectorChan := ch\<rparr>)))"

text \<open>The proxy side of the pipeline: a session hands an event to the collector.\<close>

definition pipeline_Collect :: "RawTrafficEvent \<Rightarrow> pipeline \<Rightarrow> pipeline outcome" where
  "pipeline_Collect event s =
     (case Collect (collectorChan s) event of
        Panicked \<Rightarrow> Panicked
      | Returned (err, ch) \<Rightarrow> Returned (s\<lparr>collectorChan := ch\<rparr>))"

definition live :: "worker \<Rightarrow> bool" where
  "live w = (case w of AtRange \<Rightarrow> True | Sending l \<Rightarrow> True | Exited \<Rightarrow> False | Crashed \<Rightarrow> False)"

section \<open>Publisher (internal/pipeline/publisher.go)\<close>

text \<open>
  The state of the publisher and of its \<^verbatim>\<open>processBatch\<close> goroutine: the batch size,
  the interval of the ticker in nanoseconds, the local slice \<^verbatim>\<open>batch\<close>, whether
  \<^verbatim>\<open>p.ctx\<close> has been cancelled, whether the ticker has been stopped, whether
  \<^verbatim>\<open>processBatch\<close> is over (its deferred \<^verbatim>\<open>wg.Done\<close> has run) and whether it
  ended in a panic, which ends the process. The storage collaborator is seen through
  its calls: \<open>saved\<close> lists, in call order, every batch passed to
  \<^verbatim>\<open>repo.SaveTrafficLogs\<close> together with whether the context it was given was
  already cancelled. The error it returns is only logged.
\<close>

record Publisher =
  batchSize :: int
  tickerInterval :: "64 word"
  batch :: "TrafficLog list"
  saved :: "(TrafficLog list \<times> bool) list"
  cancelled :: bool
  tickerStopped :: bool
  exited :: bool
  panicked :: bool

text \<open>
  \<^verbatim>\<open>NewPublisher\<close>: \<^verbatim>\<open>time.Duration(flushIntervalMs) * time.Millisecond\<close> is a
  product of 64-bit integers, and \<^verbatim>\<open>time.NewTicker\<close> panics when the interval is not
  positive.
\<close>

definition NewPublisher :: "int \<Rightarrow> int \<Rightarrow> Publisher outcome" where
  "NewPublisher n flushIntervalMs =
     (let d = (word_of_int flushIntervalMs :: 64 word) * 1000000
      in if sint d \<le> 0 then Panicked
         else Returned
           \<lparr>batchSize = n, tickerInterval = d, batch = [], saved = [], cancelled = False,
            tickerStopped = False, exited = False, panicked = False\<rparr>)"

text \<open>
  \<^verbatim>\<open>make([]*models.TrafficLog, 0, n)\<close>: the runtime panics when the capacity is
  negative or beyond what it can ever allocate (\<open>2\<^sup>4\<^sup>8\<close> bytes on a 64-bit platform,
  a pointer taking 8). Running out of the machine's memory below that bound is not
  modelled.
\<close>

definition make_batch :: "int \<Rightarrow> TrafficLog list outcome" where
  "make_batch n = (if n < 0 \<or> 2 ^ 48 < 8 * n then Panicked else Returned [])"

definition flushBatch :: "Publisher \<Rightarrow> TrafficLog list \<Rightarrow> Publisher" where
  "flushBatch p b = p\<lparr>saved := saved p @ [(b, cancelled p)]\<rparr>"

text \<open>The deferred function of \<^verbatim>\<open>processBatch\<close>, followed by \<^verbatim>\<open>wg.Done\<close>.\<close>

definition processBatch_return :: "Publisher \<Rightarrow> Publisher" where
  "processBatch_return p =
     (let p' = (if length (batch p) > 0 then flushBatch p (batch p) else p)
      in p'\<lparr>tickerStopped := True, exited := True\<rparr>)"

text \<open>
  The start of \<^verbatim>\<open>processBatch\<close>: \<^verbatim>\<open>wg.Done\<close> is deferred, then the batch is made.
  When \<^verbatim>\<open>make\<close> panics the flushing function is not deferred yet: only
  \<^verbatim>\<open>wg.Done\<close> runs, and the loop is never entered.
\<close>

definition processBatch_begin :: "Publisher \<Rightarrow> Publisher" where
  "processBatch_begin p =
     (case make_batch (batchSize p) of
        Panicked \<Rightarrow> p\<lparr>exited := True, panicked := True\<rparr>
      | Returned b \<Rightarrow> p\<lparr>batch := b\<rparr>)"

text \<open>
  A flush inside the loop: \<^verbatim>\<open>flushBatch(batch)\<close>, then a new batch is made. Were
  this \<^verbatim>\<open>make\<close> to panic, the deferred function would run with the batch still in
  place before the process ends.
\<close>

definition flush_and_reset :: "Publisher \<Rightarrow> Publisher" where
  "flush_and_reset p =
     (case make_batch (batchSize p) of
        Panicked \<Rightarrow> (processBatch_return (flushBatch p (batch p)))\<lparr>panicked := True\<rparr>
      | Returned b \<Rightarrow> (flushBatch p (batch p))\<lparr>batch := b\<rparr>)"

text \<open>
  The case that a \<^verbatim>\<open>select\<close> of the loop runs. Go picks among the ready cases;
  which one, and which pointer a receive delivers (\<open>None\<close> is \<^verbatim>\<open>nil\<close>, what a
  closed empty channel gives), is the schedule's choice. \<^verbatim>\<open>ctx.Done()\<close> is ready
  only once the context is cancelled.
\<close>

datatype select_case = CtxDone | RecvLog "TrafficLog option" | Tick

definition processBatch_step :: "Publisher \<Rightarrow> select_case \<Rightarrow> Publisher" where
  "processBatch_step p c =
     (if exited p then p
      else
        (case c of
           CtxDone \<Rightarrow> if cancelled p then processBatch_return p else p
         | RecvLog None \<Rightarrow> processBatch_return p
         | RecvLog (Some l) \<Rightarrow>
             (let p' = p\<lparr>batch := batch p @ [l]\<rparr>
              in if int (length (batch p')) \<ge> batchSize p then flush_and_reset p' else p')
         | Tick \<Rightarrow>
             if length (batch p) > 0 then flush_and_reset p else p))"

text \<open>The loop of a running \<^verbatim>\<open>processBatch\<close> through the cases of a schedule.\<close>

definition processBatch_loop :: "Publisher \<Rightarrow> select_case list \<Rightarrow> Publisher" where
  "processBatch_loop p sched = foldl processBatch_step p sched"

text \<open>
  The goroutine that \<^verbatim>\<open>Start\<close> launches, from its first statement through the
  cases of a schedule.
\<close>

definition processBatch :: "Publisher \<Rightarrow> select_case list \<Rightarrow> Publisher" where
  "processBatch p sched = processBatch_loop (processBatch_begin p) sched"

text \<open>
  \<^verbatim>\<open>Stop\<close> on a publisher whose goroutine is in state \<open>p\<close>: \<^verbatim>\<open>p.cancel()\<close>, then
  \<^verbatim>\<open>p.wg.Wait()\<close> while the loop runs through the cases of the schedule.
\<close>

definition Publisher_Stop :: "Publisher \<Rightarrow> select_case list \<Rightarrow> Publisher" where
  "Publisher_Stop p sched = processBatch_loop (p\<lparr>cancelled := True\<rparr>) sched"

section \<open>Proxy server (internal/proxy/server.go)\<close>

text \<open>
  The options of \<^verbatim>\<open>config.Config\<close> that concern the proxy and its admission:
  \<^verbatim>\<open>Proxy.Auth\<close>, \<^verbatim>\<open>Proxy.MaxConnections\<close>, \<^verbatim>\<open>Proxy.IPWhitelist\<close> and
  \<^verbatim>\<open>RateLimit\<close>.
\<close>

record Config =
  Proxy_Address :: string
  Proxy_Port :: int
  Auth_Enabled :: bool
  Auth_Username :: string
  Auth_Password :: string
  MaxConnections :: int
  IPWhitelist_ips :: "string list"
  RateLimit_Enabled :: bool
  RateLimit_RequestsPerSecond :: int

text \<open>
  \<^verbatim>\<open>Server{cfg, log, collector, listener}\<close>: the collector is the channel it sends
  on. The struct holds no pool, limiter, authenticator or whitelist.
\<close>

record Server =
  cfg :: Config
  collector :: "RawTrafficEvent chan"

definition NewServer :: "Config \<Rightarrow> RawTrafficEvent chan \<Rightarrow> Server" where
  "NewServer c ch = \<lparr>cfg = c, collector = ch\<rparr>"

text \<open>
  The outcome of \<^verbatim>\<open>dialer.DialContext\<close>: an error, or a connection, of which the
  code later reads \<^verbatim>\<open>RemoteAddr()\<close> (the address when it is a \<^verbatim>\<open>*net.TCPAddr\<close>).
\<close>

datatype dial_result = DialError | DialOk "string option"

record trackedConn =
  remoteAddr :: "string option"
  destAddr :: string
  timestamp :: int
  latency :: "64 word"
  bytesIn :: "64 word"
  bytesOut :: "64 word"

text \<open>\<open>start\<close> and \<open>finish\<close> are the clock before and after the dial.\<close>

definition dialWithTracking :: "string \<Rightarrow> int \<Rightarrow> int \<Rightarrow> dial_result \<Rightarrow> trackedConn option" where
  "dialWithTracking addr start finish res =
     (case res of
        DialError \<Rightarrow> None
      | DialOk ra \<Rightarrow>
          Some \<lparr>remoteAddr = ra, destAddr = addr, timestamp = start,
                latency = word_of_int (Milliseconds (finish - start)),
                bytesIn = 0, bytesOut = 0\<rparr>)"

text \<open>\<open>n\<close> is the count returned by the wrapped connection.\<close>

definition trackedConn_Read :: "trackedConn \<Rightarrow> int \<Rightarrow> trackedConn" where
  "trackedConn_Read tc n = tc\<lparr>bytesIn := bytesIn tc + word_of_int n\<rparr>"

definition trackedConn_Write :: "trackedConn \<Rightarrow> int \<Rightarrow> trackedConn" where
  "trackedConn_Write tc n = tc\<lparr>bytesOut := bytesOut tc + word_of_int n\<rparr>"

text \<open>
  \<^verbatim>\<open>trackedConn.Close\<close> builds the event and hands it to the collector.
  \<^verbatim>\<open>parseAddress\<close> rests on \<^verbatim>\<open>net.SplitHostPort\<close> and \<^verbatim>\<open>fmt.Sscanf\<close> of the
  standard library and is a parameter.
\<close>

definition close_event :: "(string \<Rightarrow> string \<times> int) \<Rightarrow> trackedConn \<Rightarrow> RawTrafficEvent" where
  "close_event parseAddress tc =
     \<lparr>SourceIP = (case remoteAddr tc of Some ip \<Rightarrow> ip | None \<Rightarrow> []),
      DestinationIP = fst (parseAddress (destAddr tc)),
      Domain = [],
      Port = snd (parseAddress (destAddr tc)),
      Timestamp = timestamp tc,
      LatencyMs = latency tc,
      BytesIn = bytesIn tc,
      BytesOut = bytesOut tc,
      Protocol = ''tcp''\<rparr>"

definition trackedConn_Close ::
  "(string \<Rightarrow> string \<times> int) \<Rightarrow> Server \<Rightarrow> trackedConn \<Rightarrow> Server outcome" where
  "trackedConn_Close parseAddress s tc =
     (case Collect (collector s) (close_event parseAddress tc) of
        Panicked \<Rightarrow> Panicked
      | Returned (err, ch) \<Rightarrow> Returned (s\<lparr>collector := ch\<rparr>))"

text \<open>
  \<^verbatim>\<open>Start\<close>: the configuration it hands to the SOCKS5 library and the address it
  listens on. The configuration literal names the resolver, then the dial hook is set
  to \<^verbatim>\<open>s.dialWithTracking\<close>; nothing else is set. Of \<^verbatim>\<open>s.cfg\<close> it reads
  \<^verbatim>\<open>Proxy.Address\<close> and \<^verbatim>\<open>Proxy.Port\<close> only.
\<close>

datatype resolver = DNSResolver

record socks5_Config =
  Resolver :: resolver
  Dial :: "string \<Rightarrow> int \<Rightarrow> int \<Rightarrow> dial_result \<Rightarrow> trackedConn option"

definition Start :: "Server \<Rightarrow> socks5_Config \<times> (string \<times> int)" where
  "Start s =
     (\<lparr>Resolver = DNSResolver, Dial = dialWithTracking\<rparr>,
      (Proxy_Address (cfg s), Proxy_Port (cfg s)))"

datatype session_state = Pending | Negotiating | Relaying | Closed

datatype io_op = IoRead int | IoWrite int

text \<open>
  What one client connection brings: who the client is and what credentials it can
  offer, the destination it asks for, the clock around the dial and its outcome, and
  the reads and writes on the destination connection while relaying.
\<close>

record session_input =
  client_ip :: string
  client_user :: string
  client_pass :: string
  request_addr :: string
  dial_start :: int
  dial_finish :: int
  dial_outcome :: dial_result
  relay_io :: "io_op list"

fun relay_op :: "trackedConn \<Rightarrow> io_op \<Rightarrow> trackedConn" where
  "relay_op tc (IoRead n) = trackedConn_Read tc n"
| "relay_op tc (IoWrite n) = trackedConn_Write tc n"

text \<open>
  Modelled from the spec: the handling of one client connection, which the program
  leaves to the SOCKS5 library \<^verbatim>\<open>github.com/armon/go-socks5\<close>; the library's code
  is not among the sources. After section 4.4 of the spec: the session performs protocol
  negotiation to learn the requested destination, then dials it; a dial failure takes
  the session to closed without an event; after a successful dial the session relays
  bytes in both directions, counting them, and at close it emits one event. The dial
  is the hook of the configuration the library was given, the relay reads and writes
  the connection the hook returned, and the close is that connection's. The checks
  that section 4.4 puts before negotiation are not written into this definition:
  whether a session is subject to them is decided by what \<^verbatim>\<open>Start\<close> configures.
\<close>

definition serve_session ::
  "(string \<Rightarrow> string \<times> int) \<Rightarrow> socks5_Config \<Rightarrow> Server \<Rightarrow> session_input
     \<Rightarrow> session_state list \<times> Server outcome" where
  "serve_session parseAddress conf s inp =
     (case Dial conf (request_addr inp) (dial_start inp) (dial_finish inp) (dial_outcome inp) of
        None \<Rightarrow> ([Pending, Negotiating, Closed], Returned s)
      | Some tc \<Rightarrow>
          ([Pending, Negotiating, Relaying, Closed],
           trackedConn_Close parseAddress s (foldl relay_op tc (relay_io inp))))"

text \<open>A session of the proxy: the library serving with the configuration of \<^verbatim>\<open>Start\<close>.\<close>

definition proxy_session ::
  "(string \<Rightarrow> string \<times> int) \<Rightarrow> Server \<Rightarrow> session_input \<Rightarrow> session_state list \<times> Server outcome" where
  "proxy_session parseAddress s inp = serve_session parseAddress (fst (Start s)) s inp"

section \<open>Concrete inputs used in the examples\<close>

definition demo_event :: RawTrafficEvent where
  "demo_event =
     \<lparr>SourceIP = ''192.168.1.1'', DestinationIP = ''8.8.8.8'', Domain = ''google.com'',
      Port = 443, Timestamp = 1700000000000000000, LatencyMs = 100, BytesIn = 1024,
      BytesOut = 512, Protocol = ''tcp''\<rparr>"

text \<open>
  A pipeline with queues of capacity 1 and one worker, in which one session has
  collected an event that the worker has not taken yet.
\<close>

definition demo_pipeline :: pipeline where
  "demo_pipeline =
     \<lparr>collectorChan = \<lparr>buf = [demo_event], cap = 1, closed = False\<rparr>,
      normalizerOutputChan = \<lparr>buf = [], cap = 1, closed = False\<rparr>,
      workers = [AtRange]\<rparr>"

text \<open>That pipeline after \<^verbatim>\<open>normalizer.Close()\<close>, and after the whole shutdown.\<close>

definition demo_closed :: pipeline where
  "demo_closed =
     \<lparr>collectorChan = \<lparr>buf = [demo_event], cap = 1, closed = False\<rparr>,
      normalizerOutputChan = \<lparr>buf = [], cap = 1, closed = True\<rparr>,
      workers = [AtRange]\<rparr>"

definition demo_shut :: pipeline where
  "demo_shut =
     \<lparr>collectorChan = \<lparr>buf = [demo_event], cap = 1, closed = True\<rparr>,
      normalizerOutputChan = \<lparr>buf = [], cap = 1, closed = True\<rparr>,
      workers = [AtRange]\<rparr>"

definition demo_log :: TrafficLog where
  "demo_log = normalize demo_event"

text \<open>The publisher made by \<^verbatim>\<open>NewPublisher\<close> with the default batch size and interval.\<close>

definition demo_publisher :: Publisher where
  "demo_publisher =
     \<lparr>batchSize = 100, tickerInterval = 5000000000, batch = [], saved = [], cancelled = False,
      tickerStopped = False, exited = False, panicked = False\<rparr>"

text \<open>
  A configuration under which every gate would refuse the client of \<open>demo_input\<close>:
  no connection slot, credentials the client does not have, a whitelist without its
  address.
\<close>

definition demo_cfg :: Config where
  "demo_cfg =
     \<lparr>Proxy_Address = ''0.0.0.0'', Proxy_Port = 1080, Auth_Enabled = True,
      Auth_Username = ''admin'', Auth_Password = ''secret'', MaxConnections = 0,
      IPWhitelist_ips = [''192.168.1.1''], RateLimit_Enabled = True,
      RateLimit_RequestsPerSecond = 1\<rparr>"

definition demo_input :: session_input where
  "demo_input =
     \<lparr>client_ip = ''10.0.0.1'', client_user = ''mallory'', client_pass = ''guess'',
      request_addr = ''93.184.216.34:443'', dial_start = 1700000000000000000,
      dial_finish = 1700000000025000000, dial_outcome = DialOk (Some ''93.184.216.34''),
      relay_io = [IoWrite 120, IoRead 2048]\<rparr>"

definition demo_parse :: "string \<Rightarrow> string \<times> int" where
  "demo_parse addr = (''93.184.216.34'', 443)"

section \<open>Properties of access control\<close>

lemma wl_run_enabled: "wl_enabled (wl_run w ops) = wl_enabled w"
  unfolding wl_run_def
proof (induction ops arbitrary: w)
  case Nil
  show ?case by simp
next
  case (Cons x xs)
  have "wl_enabled (wl_apply w x) = wl_enabled w"
    by (cases x) (simp_all add: AddIP_def RemoveIP_def)
  with Cons show ?case by simp
qed

lemma fold_add_true:
  "fold (\<lambda>ip m. m(ip \<mapsto> True)) ips m0 ip =
     (if ip \<in> set ips then Some True else m0 ip)"
  by (induction ips arbitrary: m0) auto

lemma New_allowed: "allowedIPs (NewIPWhitelist ips) ip = (if ip \<in> set ips then Some True else None)"
  by (simp add: NewIPWhitelist_def fold_add_true)

lemma wl_run_allowed:
  assumes "\<And>ip. allowedIPs w ip = (if ip \<in> S then Some True else None)"
  shows "allowedIPs (wl_run w ops) ip =
           (if ip \<in> foldl listed_apply S ops then Some True else None)"
  using assms unfolding wl_run_def
proof (induction ops arbitrary: w S)
  case Nil
  then show ?case by simp
next
  case (Cons x xs)
  have "\<And>ip. allowedIPs (wl_apply w x) ip =
          (if ip \<in> listed_apply S x then Some True else None)"
    using Cons.prems by (cases x) (auto simp: AddIP_def RemoveIP_def)
  from Cons.IH [OF this] show ?case by simp
qed

lemma wl_run_New_allowed:
  "allowedIPs (wl_run (NewIPWhitelist ips) ops) ip =
     (if ip \<in> listed ips ops then Some True else None)"
  unfolding listed_def by (rule wl_run_allowed) (simp add: New_allowed)

text \<open>
  C10. \<^verbatim>\<open>NewAuthenticator(u, p)\<close> always sets the enabled flag, so the always-allow
  branch of \<^verbatim>\<open>Authenticate\<close> is never taken for a constructed authenticator, and
  \<^verbatim>\<open>Authenticate(x, y)\<close> is true exactly when \<open>x = u\<close> and \<open>y = p\<close>.
\<close>

theorem NewAuthenticator_exact:
  "IsEnabled (NewAuthenticator u p) \<and>
   auth_enabled (NewAuthenticator u p) \<and>
   Authenticate (NewAuthenticator u p) x y = (x = u \<and> y = p)"
  by (simp add: NewAuthenticator_def Authenticate_def IsEnabled_def)

theorem NewAuthenticator_exact_witness:
  "Authenticate (NewAuthenticator ''testuser'' ''testpass'') ''testuser'' ''testpass'' \<and>
   \<not> Authenticate (NewAuthenticator ''testuser'' ''testpass'') ''wronguser'' ''testpass'' \<and>
   \<not> Authenticate (NewAuthenticator ''testuser'' ''testpass'') ''testuser'' ''wrongpass''"
  using NewAuthenticator_exact [of "''testuser''" "''testpass''" "''testuser''" "''testpass''"]
        NewAuthenticator_exact [of "''testuser''" "''testpass''" "''wronguser''" "''testpass''"]
        NewAuthenticator_exact [of "''testuser''" "''testpass''" "''testuser''" "''wrongpass''"]
  by simp

text \<open>
  C9. The enabled flag of an \<^verbatim>\<open>IPWhitelist\<close> is fixed by the constructor (true
  exactly when the initial list is non-empty) and no sequence of \<^verbatim>\<open>AddIP\<close> and
  \<^verbatim>\<open>RemoveIP\<close> calls changes it; hence a whitelist constructed from the empty list
  allows every address in every later state, whatever has been added since.
\<close>

theorem whitelist_enabled_fixed:
  "wl_enabled (NewIPWhitelist ips) = (ips \<noteq> []) \<and>
   wl_enabled (wl_run w ops) = wl_enabled w \<and>
   IsAllowed (wl_run (NewIPWhitelist []) ops) ip"
  by (simp add: wl_run_enabled IsAllowed_def) (simp add: NewIPWhitelist_def)

theorem whitelist_enabled_fixed_witness:
  "IsAllowed (wl_run (NewIPWhitelist []) [OpAddIP ''10.0.0.1'']) ''192.168.1.1'' \<and>
   \<not> wl_enabled (wl_run (NewIPWhitelist []) [OpAddIP ''10.0.0.1''])"
  using whitelist_enabled_fixed [of "[]" "NewIPWhitelist []" "[OpAddIP ''10.0.0.1'']" "''192.168.1.1''"]
  by simp

text \<open>
  C4, as the code has it. A whitelist constructed from the empty list allows every
  address, whatever is added or removed later. A whitelist constructed from a non-empty
  list allows exactly the addresses listed at that moment: those of the initial list or
  added since, and not removed since; when all of them have been removed it allows none.
\<close>

theorem whitelist_membership:
  "IsAllowed (wl_run (NewIPWhitelist ips) ops) ip = (ips = [] \<or> ip \<in> listed ips ops)"
proof -
  have "wl_enabled (wl_run (NewIPWhitelist ips) ops) = (ips \<noteq> [])"
    by (simp add: wl_run_enabled) (simp add: NewIPWhitelist_def)
  then show ?thesis
    by (simp add: IsAllowed_def wl_run_New_allowed)
qed

theorem whitelist_membership_witness:
  "IsAllowed (wl_run (NewIPWhitelist [''192.168.1.1'', ''192.168.1.2''])
       [OpAddIP ''10.0.0.1'', OpRemoveIP ''192.168.1.1'']) ''10.0.0.1'' \<and>
   \<not> IsAllowed (wl_run (NewIPWhitelist [''192.168.1.1'', ''192.168.1.2''])
       [OpAddIP ''10.0.0.1'', OpRemoveIP ''192.168.1.1'']) ''192.168.1.1''"
  using whitelist_membership [of "[''192.168.1.1'', ''192.168.1.2'']"
          "[OpAddIP ''10.0.0.1'', OpRemoveIP ''192.168.1.1'']" "''10.0.0.1''"]
        whitelist_membership [of "[''192.168.1.1'', ''192.168.1.2'']"
          "[OpAddIP ''10.0.0.1'', OpRemoveIP ''192.168.1.1'']" "''192.168.1.1''"]
  by (simp add: listed_def)

text \<open>
  C4 as stated fails: a whitelist constructed from one address and emptied by
  \<^verbatim>\<open>RemoveIP\<close> has an empty set and denies that address (and every other one).
\<close>

theorem whitelist_emptied_denies:
  "dom (allowedIPs (RemoveIP (NewIPWhitelist [''192.168.1.1'']) ''192.168.1.1'')) = {} \<and>
   \<not> IsAllowed (RemoveIP (NewIPWhitelist [''192.168.1.1'']) ''192.168.1.1'') ''192.168.1.1''"
  by (simp add: RemoveIP_def NewIPWhitelist_def IsAllowed_def)

section \<open>Properties of the admission gate\<close>

lemma add_connections_free:
  "activeConn cp + int n \<le> maxConnections cp \<Longrightarrow>
   add_connections n cp = (replicate n True, cp\<lparr>activeConn := activeConn cp + int n\<rparr>)"
proof (induction n arbitrary: cp)
  case 0
  show ?case by simp
next
  case (Suc n)
  let ?cp' = "cp\<lparr>activeConn := activeConn cp + 1\<rparr>"
  from Suc.prems have step: "AddConnection cp = (True, ?cp')"
    by (simp add: AddConnection_def)
  from Suc.prems have "activeConn ?cp' + int n \<le> maxConnections ?cp'" by simp
  from Suc.IH [OF this] step show ?case by (simp add: add.commute add.left_commute)
qed

lemma add_connections_append:
  "add_connections (n + k) cp =
     (let (rs, cp') = add_connections n cp; (rs', cp'') = add_connections k cp'
      in (rs @ rs', cp''))"
  by (induction n arbitrary: cp) (simp_all add: Let_def split: prod.splits)

text \<open>
  C5, as the code has it: for a pool with maximum \<open>m \<ge> 1\<close>, starting from zero active
  connections, the first \<open>m\<close> calls of \<^verbatim>\<open>AddConnection\<close> return true and the next
  one returns false, leaving the counter at \<open>m\<close>; after one \<^verbatim>\<open>RemoveConnection\<close>
  one more call returns true and the call after it false; and \<^verbatim>\<open>RemoveConnection\<close>
  never takes a non-negative counter below zero.
\<close>

theorem pool_admission:
  assumes "1 \<le> m"
  shows "add_connections (nat m) (NewConnectionPool m) =
           (replicate (nat m) True, \<lparr>maxConnections = m, activeConn = m\<rparr>) \<and>
         AddConnection \<lparr>maxConnections = m, activeConn = m\<rparr> =
           (False, \<lparr>maxConnections = m, activeConn = m\<rparr>) \<and>
         add_connections 2 (RemoveConnection \<lparr>maxConnections = m, activeConn = m\<rparr>) =
           ([True, False], \<lparr>maxConnections = m, activeConn = m\<rparr>) \<and>
         (0 \<le> activeConn cp \<longrightarrow> 0 \<le> activeConn (RemoveConnection cp))"
proof -
  have "activeConn (NewConnectionPool m) + int (nat m) \<le> maxConnections (NewConnectionPool m)"
    using assms by (simp add: NewConnectionPool_def)
  from add_connections_free [OF this] assms
  have a: "add_connections (nat m) (NewConnectionPool m) =
             (replicate (nat m) True, \<lparr>maxConnections = m, activeConn = m\<rparr>)"
    by (simp add: NewConnectionPool_def)
  have b: "AddConnection \<lparr>maxConnections = m, activeConn = m\<rparr> =
             (False, \<lparr>maxConnections = m, activeConn = m\<rparr>)"
    by (simp add: AddConnection_def)
  have c: "add_connections 2 (RemoveConnection \<lparr>maxConnections = m, activeConn = m\<rparr>) =
             ([True, False], \<lparr>maxConnections = m, activeConn = m\<rparr>)"
    using assms by (simp add: numeral_2_eq_2 RemoveConnection_def AddConnection_def)
  have d: "0 \<le> activeConn cp \<longrightarrow> 0 \<le> activeConn (RemoveConnection cp)"
    by (simp add: RemoveConnection_def)
  from a b c d show ?thesis by blast
qed

theorem pool_admission_witness:
  "add_connections 5 (NewConnectionPool 5) =
     ([True, True, True, True, True], \<lparr>maxConnections = 5, activeConn = 5\<rparr>) \<and>
   add_connections 2 (RemoveConnection \<lparr>maxConnections = 5, activeConn = 5\<rparr>) =
     ([True, False], \<lparr>maxConnections = 5, activeConn = 5\<rparr>) \<and>
   0 \<le> activeConn (RemoveConnection (NewConnectionPool 5))"
proof -
  have h: "(1::int) \<le> 5" by simp
  have r: "replicate (nat 5) True = [True, True, True, True, True]" by code_simp
  have z: "0 \<le> activeConn (NewConnectionPool 5)" by (simp add: NewConnectionPool_def)
  from pool_admission [OF h, of "NewConnectionPool 5"] r z show ?thesis by simp
qed

text \<open>
  C5 as stated fails at maximum 0: no call succeeds, and after a
  \<^verbatim>\<open>RemoveConnection\<close> (which leaves the counter at 0) the next
  \<^verbatim>\<open>AddConnection\<close> still returns false.
\<close>

theorem pool_zero_max_never_admits:
  "fst (AddConnection (NewConnectionPool 0)) = False \<and>
   fst (AddConnection (RemoveConnection (snd (AddConnection (NewConnectionPool 0))))) = False"
  by (simp add: AddConnection_def RemoveConnection_def NewConnectionPool_def)

section \<open>Properties of the rate limiter\<close>

text \<open>
  The rounding is what it is meant to be: \<open>exponent\<close> is the binary exponent, and
  \<open>float64 x\<close> is a multiple of \<open>2\<^sup>e\<^sup>-\<^sup>5\<^sup>2\<close> at most half of that unit away from \<open>x\<close>.
\<close>

lemma powi_int_bounds:
  assumes "0 < p"
  shows "(2::rat) powi (bitlen p - 1) \<le> of_int p" and "of_int p < (2::rat) powi (bitlen p)"
proof -
  have n: "1 \<le> bitlen p" using assms by (simp add: bitlen_alt_def)
  have "(2::int) ^ nat (bitlen p - 1) \<le> p" and "p < 2 ^ nat (bitlen p)"
    using bitlen_bounds [OF assms] by simp_all
  then have "rat_of_int (2 ^ nat (bitlen p - 1)) \<le> of_int p" and "rat_of_int p < of_int (2 ^ nat (bitlen p))"
    by (simp_all only: of_int_le_iff of_int_less_iff)
  then show "(2::rat) powi (bitlen p - 1) \<le> of_int p" and "of_int p < (2::rat) powi (bitlen p)"
    using n by (simp_all add: power_int_def)
qed

lemma exponent_bounds:
  assumes "x \<noteq> 0"
  shows "2 powi (exponent x) \<le> \<bar>x\<bar> \<and> \<bar>x\<bar> < 2 powi (exponent x + 1)"
proof -
  obtain p q where pq: "quotient_of \<bar>x\<bar> = (p, q)" by (cases "quotient_of \<bar>x\<bar>")
  have q: "0 < q" using quotient_of_denom_pos [OF pq] .
  have x: "\<bar>x\<bar> = of_int p / of_int q" using quotient_of_div [OF pq] .
  have "0 < \<bar>x\<bar>" using assms by simp
  then have p: "0 < p" using q x by (simp add: zero_less_divide_iff)
  define e where "e = bitlen p - bitlen q"
  have Q: "(0::rat) < of_int q" using q by simp
  have up: "\<bar>x\<bar> < 2 powi (e + 1)"
  proof -
    have "rat_of_int p < 2 powi (bitlen p)" using powi_int_bounds(2) [OF p] .
    also have "\<dots> = 2 powi (e + 1) * 2 powi (bitlen q - 1)"
      by (simp add: e_def power_int_add [symmetric])
    also have "\<dots> \<le> 2 powi (e + 1) * of_int q"
      using powi_int_bounds(1) [OF q] by (intro mult_left_mono) simp_all
    finally show ?thesis using Q by (simp add: x pos_divide_less_eq)
  qed
  have lo: "2 powi (e - 1) < \<bar>x\<bar>"
  proof -
    have "2 powi (e - 1) * rat_of_int q < 2 powi (e - 1) * 2 powi (bitlen q)"
      using powi_int_bounds(2) [OF q] by (intro mult_strict_left_mono) simp_all
    also have "\<dots> = 2 powi (bitlen p - 1)"
      by (simp add: e_def power_int_add [symmetric])
    also have "\<dots> \<le> of_int p" using powi_int_bounds(1) [OF p] .
    finally show ?thesis using Q by (simp add: x pos_less_divide_eq)
  qed
  show ?thesis
  proof (cases "2 powi e \<le> \<bar>x\<bar>")
    case True
    then have "exponent x = e" using pq by (simp add: exponent_def e_def)
    with True up show ?thesis by simp
  next
    case False
    then have "exponent x = e - 1" using pq by (simp add: exponent_def e_def)
    with False lo show ?thesis by simp
  qed
qed

lemma round_even_nearest: "\<bar>of_int (round_even q) - q\<bar> \<le> 1 / 2"
proof -
  have "of_int \<lfloor>q\<rfloor> \<le> q" and "q < of_int \<lfloor>q\<rfloor> + 1" by linarith+
  then show ?thesis by (auto simp: round_even_def Let_def)
qed

lemma float64_nearest:
  assumes "x \<noteq> 0"
  shows "\<bar>float64 x - x\<bar> \<le> 2 powi (exponent x - 53)"
proof -
  let ?u = "(2::rat) powi (exponent x - 52)"
  have u: "0 < ?u" by simp
  have "float64 x - x = (of_int (round_even (x / ?u)) - x / ?u) * ?u"
    using assms u by (simp add: float64_def Let_def algebra_simps)
  then have "\<bar>float64 x - x\<bar> = \<bar>of_int (round_even (x / ?u)) - x / ?u\<bar> * ?u"
    using u by (simp add: abs_mult)
  also have "\<dots> \<le> 1 / 2 * ?u"
    using round_even_nearest [of "x / ?u"] u by (intro mult_right_mono) simp_all
  also have "\<dots> = 2 powi (exponent x - 53)"
  proof -
    have "(2::rat) powi (exponent x - 53 + 1) = 2 powi (exponent x - 53) * 2 powi 1"
      by (rule power_int_add) simp
    moreover have "exponent x - 53 + 1 = exponent x - 52" by simp
    ultimately show ?thesis by simp
  qed
  finally show ?thesis .
qed

lemma round_even_of_int: "round_even (of_int m) = m"
  by (simp add: round_even_def)

lemma exponent_of_int:
  assumes "0 < k"
  shows "exponent (of_int k) = bitlen k - 1"
proof -
  have q: "quotient_of \<bar>rat_of_int k\<bar> = (k, 1)"
    using assms by (simp add: quotient_of_int)
  have b: "(2::int) ^ nat (bitlen k - 1) \<le> k" using bitlen_bounds [OF assms] by simp
  have n: "0 \<le> bitlen k - 1" using assms by (simp add: bitlen_alt_def)
  have "(2::rat) powi (bitlen k - 1) = of_int (2 ^ nat (bitlen k - 1))"
    using n by (simp add: power_int_def)
  also have "\<dots> \<le> of_int k" using b by (simp only: of_int_le_iff)
  finally have "(2::rat) powi (bitlen k - 1) \<le> \<bar>rat_of_int k\<bar>" using assms by simp
  moreover have "bitlen 1 = 1" by (simp add: bitlen_alt_def)
  ultimately show ?thesis using q by (simp add: exponent_def)
qed

lemma float64_exact:
  assumes "x \<noteq> 0" and "x / 2 powi (exponent x - 52) = of_int m"
  shows "float64 x = x"
proof -
  let ?u = "(2::rat) powi (exponent x - 52)"
  have u: "?u \<noteq> 0" by simp
  have "float64 x = of_int (round_even (x / ?u)) * ?u"
    using assms(1) by (simp add: float64_def Let_def)
  also have "\<dots> = of_int m * ?u"
    by (simp only: assms(2) round_even_of_int)
  also have "\<dots> = x / ?u * ?u" by (simp only: assms(2))
  also have "\<dots> = x" using u by simp
  finally show ?thesis .
qed

text \<open>Integers up to \<open>2\<^sup>5\<^sup>3\<close> are \<^verbatim>\<open>float64\<close> values.\<close>

lemma float64_of_int:
  assumes "0 \<le> k" and "k \<le> 2 ^ 53"
  shows "float64 (of_int k) = of_int k"
proof (cases "k = 0")
  case True
  then show ?thesis by (simp add: float64_def)
next
  case False
  with assms have pos: "0 < k" by simp
  define e where "e = bitlen k - 1"
  have ex: "exponent (of_int k) = e" using exponent_of_int [OF pos] by (simp add: e_def)
  have e0: "0 \<le> e" using pos by (simp add: e_def bitlen_alt_def)
  have lo: "(2::int) ^ nat e \<le> k" using bitlen_bounds [OF pos] by (simp add: e_def)
  have "(2::int) ^ nat e \<le> 2 ^ 53" using lo assms(2) by (rule order_trans)
  then have "nat e \<le> 53" by (rule power_le_imp_le_exp [rotated]) simp
  then have e53: "e \<le> 53" by simp
  have nz: "rat_of_int k \<noteq> 0" using False by simp
  show ?thesis
  proof (cases "e \<le> 52")
    case True
    have "(2::rat) powi (e - 52) = inverse (2 ^ nat (52 - e))"
      using True by (cases "e = 52") (simp_all add: power_int_def power_one_over inverse_eq_divide)
    then have "rat_of_int k / 2 powi (e - 52) = of_int (k * 2 ^ nat (52 - e))"
      by (simp add: divide_inverse)
    then have "rat_of_int k / 2 powi (exponent (of_int k) - 52) = of_int (k * 2 ^ nat (52 - e))"
      by (simp only: ex)
    with nz show ?thesis by (rule float64_exact)
  next
    case False
    with e53 have e: "e = 53" by simp
    with lo assms(2) have k: "k = 2 ^ 53" by simp
    have "rat_of_int k / 2 powi (e - 52) = of_int (2 ^ 52)"
      by (simp add: e k)
    then have "rat_of_int k / 2 powi (exponent (of_int k) - 52) = of_int (2 ^ 52)"
      by (simp only: ex)
    with nz show ?thesis by (rule float64_exact)
  qed
qed

lemma Allow_new:
  assumes "rl_enabled rl" "buckets rl identifier = None"
  shows "Allow rl identifier now =
           (True, rl\<lparr>buckets := (buckets rl)(identifier \<mapsto>
               \<lparr>tokens = float64 (of_int (requestsPerSecond rl)), lastTime = now,
                ratePerMs = float64 (float64 (of_int (requestsPerSecond rl)) / 1000)\<rparr>)\<rparr>)"
  using assms by (simp add: Allow_def)

text \<open>
  A call at the instant of the bucket's last touch, on a bucket holding an integer
  number of tokens that is at most \<open>2\<^sup>5\<^sup>3\<close> and at most the capacity.
\<close>

lemma Allow_same_instant:
  assumes "rl_enabled rl" "buckets rl identifier = Some b" "lastTime b = now"
    and "tokens b = of_int k" "0 \<le> k" "k \<le> 2 ^ 53"
    and "of_int k \<le> float64 (of_int (requestsPerSecond rl))"
  shows "Allow rl identifier now =
           (if 1 \<le> k
            then (True, rl\<lparr>buckets := (buckets rl)(identifier \<mapsto> b\<lparr>tokens := of_int (k - 1)\<rparr>)\<rparr>)
            else (False, rl))"
proof -
  have z: "float64 0 = 0" by (simp add: float64_def)
  have fk: "float64 (of_int k) = of_int k" using assms(5,6) by (rule float64_of_int)
  have t: "minFloat (float64 (of_int (requestsPerSecond rl))) (rat_of_int k) = of_int k"
    using assms(7) by (simp add: minFloat_def)
  have same: "b\<lparr>lastTime := now\<rparr> = b"
    using assms(3) by simp
  have same': "b\<lparr>tokens := of_int k\<rparr> = b"
    using assms(4) by simp
  have upd: "rl\<lparr>buckets := (buckets rl)(identifier \<mapsto> b)\<rparr> = rl"
    using assms(2) by (simp add: fun_upd_idem)
  have one: "(1 \<le> rat_of_int k) = (1 \<le> k)" by simp
  have dec: "1 \<le> k \<Longrightarrow> float64 (rat_of_int k - 1) = of_int (k - 1)"
  proof -
    assume "1 \<le> k"
    then have "0 \<le> k - 1" and "k - 1 \<le> 2 ^ 53" using assms(6) by simp_all
    then have "float64 (of_int (k - 1)) = of_int (k - 1)" by (rule float64_of_int)
    then show ?thesis by simp
  qed
  show ?thesis
    using assms(1,2) dec
    by (simp add: Allow_def Milliseconds_def Let_def assms(3,4) z fk t same same' upd one)
qed

lemma allow_burst_Suc:
  "fst (allow_burst (Suc n) rl identifier now) =
     fst (Allow rl identifier now) #
     fst (allow_burst n (snd (Allow rl identifier now)) identifier now)"
  by (simp add: split_beta)

lemma allow_burst_drain:
  assumes "rl_enabled rl" "buckets rl identifier = Some b" "lastTime b = now"
    and "tokens b = of_nat k" "int k \<le> 2 ^ 53"
    and "of_nat k \<le> float64 (of_int (requestsPerSecond rl))"
  shows "fst (allow_burst (Suc k) rl identifier now) = replicate k True @ [False]"
  using assms
proof (induction k arbitrary: rl b)
  case 0
  have "Allow rl identifier now = (if 1 \<le> (0::int) then
      (True, rl\<lparr>buckets := (buckets rl)(identifier \<mapsto> b\<lparr>tokens := of_int (0 - 1)\<rparr>)\<rparr>)
      else (False, rl))"
    using 0 by (intro Allow_same_instant) simp_all
  then show ?case by simp
next
  case (Suc k)
  let ?b' = "b\<lparr>tokens := of_int (int (Suc k) - 1)\<rparr>"
  let ?rl' = "rl\<lparr>buckets := (buckets rl)(identifier \<mapsto> ?b')\<rparr>"
  have "Allow rl identifier now = (if 1 \<le> int (Suc k) then (True, ?rl') else (False, rl))"
    using Suc.prems by (intro Allow_same_instant) simp_all
  then have step: "Allow rl identifier now = (True, ?rl')" by simp
  have "fst (allow_burst (Suc k) ?rl' identifier now) = replicate k True @ [False]"
  proof (rule Suc.IH)
    show "rl_enabled ?rl'" using Suc.prems(1) by simp
    show "buckets ?rl' identifier = Some ?b'" by simp
    show "lastTime ?b' = now" using Suc.prems(3) by simp
    show "tokens ?b' = of_nat k" by simp
    show "int k \<le> 2 ^ 53" using Suc.prems(5) by simp
    have "(of_nat k :: rat) \<le> of_nat (Suc k)" by simp
    also have "\<dots> \<le> float64 (of_int (requestsPerSecond rl))" by (rule Suc.prems(6))
    finally show "of_nat k \<le> float64 (of_int (requestsPerSecond ?rl'))" by simp
  qed
  with step show ?case by (simp add: split_beta)
qed

text \<open>
  C3, as the code has it. For an enabled limiter of capacity \<open>c\<close> with
  \<open>1 \<le> c \<le> 2\<^sup>5\<^sup>3\<close> and an identifier it has not seen, with all calls at one
  instant: the first \<^verbatim>\<open>Allow\<close> returns true and leaves the new bucket with all
  \<open>c\<close> tokens; the next \<open>c\<close> calls return true; the call after them, the
  \<open>(c+2)\<close>-th, returns false.
\<close>

theorem rate_limiter_burst:
  assumes "rl_enabled rl" "requestsPerSecond rl = c" "1 \<le> c" "c \<le> 2 ^ 53"
    and "buckets rl identifier = None"
  shows "fst (Allow rl identifier now) = True \<and>
         map_option tokens (buckets (snd (Allow rl identifier now)) identifier) = Some (of_int c) \<and>
         fst (allow_burst (nat c + 2) rl identifier now) = replicate (nat c + 1) True @ [False]"
proof -
  have fc: "float64 (of_int c) = of_int c" using assms(3,4) by (intro float64_of_int) simp_all
  let ?b = "\<lparr>tokens = rat_of_int c, lastTime = now, ratePerMs = float64 (of_int c / 1000)\<rparr>"
  let ?rl1 = "rl\<lparr>buckets := (buckets rl)(identifier \<mapsto> ?b)\<rparr>"
  have first: "Allow rl identifier now = (True, ?rl1)"
    using Allow_new [OF assms(1,5)] assms(2) fc by simp
  have "fst (allow_burst (Suc (nat c)) ?rl1 identifier now) = replicate (nat c) True @ [False]"
  proof (rule allow_burst_drain)
    show "rl_enabled ?rl1" using assms(1) by simp
    show "buckets ?rl1 identifier = Some ?b" by simp
    show "lastTime ?b = now" by simp
    show "tokens ?b = of_nat (nat c)" using assms(3) by simp
    show "int (nat c) \<le> 2 ^ 53" using assms(3,4) by simp
    show "of_nat (nat c) \<le> float64 (of_int (requestsPerSecond ?rl1))"
      using assms(2,3) fc by simp
  qed
  then have rest: "fst (allow_burst (nat c + 2) rl identifier now) =
                     replicate (nat c + 1) True @ [False]"
    using first by (simp add: split_beta)
  from first rest show ?thesis by simp
qed

theorem rate_limiter_burst_witness:
  "fst (allow_burst 4 (NewRateLimiter 2 True) ''test-client'' 0) = [True, True, True, False]"
proof -
  have e: "rl_enabled (NewRateLimiter 2 True)"
    and c: "requestsPerSecond (NewRateLimiter 2 True) = 2"
    and n: "buckets (NewRateLimiter 2 True) ''test-client'' = None"
    by (simp_all add: NewRateLimiter_def)
  have h: "(1::int) \<le> 2" and h': "(2::int) \<le> 2 ^ 53" by simp_all
  have r: "replicate (nat 2 + 1) True @ [False] = [True, True, True, False]" by code_simp
  have k: "nat 2 + 2 = (4::nat)" by simp
  from rate_limiter_burst [OF e c h h' n, of 0] r k show ?thesis by simp
qed

text \<open>
  C3 as stated fails for a capacity that \<^verbatim>\<open>float64\<close> cannot hold: with
  \<open>c = 2\<^sup>5\<^sup>3 + 1\<close> the bucket is created with \<open>2\<^sup>5\<^sup>3\<close> tokens, not \<open>c\<close>, and of
  the \<open>c\<close> calls that follow the first the last one returns false.
\<close>

theorem rate_limiter_large_capacity:
  "map_option tokens
     (buckets (snd (Allow (NewRateLimiter 9007199254740993 True) ''test-client'' 0))
        ''test-client'') = Some 9007199254740992 \<and>
   fst (allow_burst (Suc (Suc 9007199254740992)) (NewRateLimiter 9007199254740993 True)
          ''test-client'' 0) =
     True # replicate 9007199254740992 True @ [False]"
proof -
  let ?rl = "NewRateLimiter 9007199254740993 True"
  have f: "float64 9007199254740993 = 9007199254740992" by code_simp
  let ?b = "\<lparr>tokens = 9007199254740992, lastTime = 0,
              ratePerMs = float64 (9007199254740992 / 1000)\<rparr>"
  let ?rl1 = "?rl\<lparr>buckets := (buckets ?rl)(''test-client'' \<mapsto> ?b)\<rparr>"
  have first: "Allow ?rl ''test-client'' 0 = (True, ?rl1)"
    by (simp add: Allow_def NewRateLimiter_def f)
  have drain: "fst (allow_burst (Suc 9007199254740992) ?rl1 ''test-client'' 0) =
          replicate 9007199254740992 True @ [False]"
  proof (rule allow_burst_drain)
    show "rl_enabled ?rl1" by (simp add: NewRateLimiter_def)
    show "buckets ?rl1 ''test-client'' = Some ?b" by simp
    show "lastTime ?b = 0" by simp
    show "tokens ?b = of_nat 9007199254740992" by simp
    show "int 9007199254740992 \<le> 2 ^ 53" by simp
    show "of_nat 9007199254740992 \<le> float64 (of_int (requestsPerSecond ?rl1))"
      by (simp add: NewRateLimiter_def f)
  qed
  have "fst (allow_burst (Suc (Suc 9007199254740992)) ?rl ''test-client'' 0) =
          fst (Allow ?rl ''test-client'' 0) #
          fst (allow_burst (Suc 9007199254740992) (snd (Allow ?rl ''test-client'' 0))
                 ''test-client'' 0)"
    by (rule allow_burst_Suc)
  then have burst: "fst (allow_burst (Suc (Suc 9007199254740992)) ?rl ''test-client'' 0) =
          True # replicate 9007199254740992 True @ [False]"
    by (simp only: first fst_conv snd_conv drain)
  have tok: "map_option tokens (buckets (snd (Allow ?rl ''test-client'' 0)) ''test-client'') =
          Some 9007199254740992"
    by (simp add: first)
  from tok burst show ?thesis by (rule conjI)
qed

section \<open>Properties of the collector\<close>

text \<open>
  C7, as the code has it: on a buffered intake queue (capacity one or more) that has
  not been closed, for every event and every fill level, \<^verbatim>\<open>Collect\<close> returns (it
  has no waiting outcome) with a nil error; with a free slot the event is appended, and
  on a full queue the queue is returned unchanged, the event dropped.
\<close>

theorem Collect_open:
  assumes "\<not> closed out" and "0 < cap out"
  shows "Collect out event =
           Returned (None, if length (buf out) < cap out
                           then out\<lparr>buf := buf out @ [event]\<rparr> else out)"
  using assms by (simp add: Collect_def try_send_def)

theorem Collect_open_witness:
  "Collect \<lparr>buf = [demo_event], cap = 1, closed = False\<rparr> demo_event =
     Returned (None, \<lparr>buf = [demo_event], cap = 1, closed = False\<rparr>) \<and>
   Collect \<lparr>buf = [], cap = 1, closed = False\<rparr> demo_event =
     Returned (None, \<lparr>buf = [demo_event], cap = 1, closed = False\<rparr>)"
  using Collect_open [of "\<lparr>buf = [demo_event], cap = 1, closed = False\<rparr>" demo_event]
        Collect_open [of "\<lparr>buf = [], cap = 1, closed = False\<rparr>" demo_event]
  by simp

text \<open>
  C7 as stated fails on a closed queue: the send case of the \<^verbatim>\<open>select\<close> panics,
  so \<^verbatim>\<open>Collect\<close> does not return nil.
\<close>

theorem Collect_closed_panics:
  "Collect \<lparr>buf = [], cap = 1, closed = True\<rparr> demo_event = Panicked"
  by (simp add: Collect_def try_send_def)

section \<open>Properties of the normalizer\<close>

text \<open>
  C6, as the code has it: a worker that takes an event from the intake queue builds a
  record equal to the event on all nine source fields, the domain as it came; the
  record's creation timestamp, like its id and deletion mark, is left at the zero value:
  the normalizer sets none of them.
\<close>

theorem normalizer_copies_fields:
  assumes "i < length (workers s)" and "workers s ! i = AtRange"
    and "buf (collectorChan s) = event # rest"
  shows "workers (worker_step i s) ! i = Sending (normalize event) \<and>
         buf (collectorChan (worker_step i s)) = rest \<and>
         log_SourceIP (normalize event) = SourceIP event \<and>
         log_DestinationIP (normalize event) = DestinationIP event \<and>
         log_Domain (normalize event) = Domain event \<and>
         log_Port (normalize event) = Port event \<and>
         log_Timestamp (normalize event) = Timestamp event \<and>
         log_LatencyMs (normalize event) = LatencyMs event \<and>
         log_BytesIn (normalize event) = BytesIn event \<and>
         log_BytesOut (normalize event) = BytesOut event \<and>
         log_Protocol (normalize event) = Protocol event \<and>
         log_CreatedAt (normalize event) = 0 \<and>
         log_ID (normalize event) = 0 \<and>
         log_DeletedAt (normalize event) = None"
  using assms
  by (simp add: worker_step_def process_step_def recv_def normalize_def)

theorem normalizer_copies_fields_witness:
  "workers (worker_step 0 demo_pipeline) ! 0 = Sending (normalize demo_event) \<and>
   log_Domain (normalize demo_event) = ''google.com'' \<and>
   log_BytesIn (normalize demo_event) = 1024"
proof -
  have a: "0 < length (workers demo_pipeline)"
    and b: "workers demo_pipeline ! 0 = AtRange"
    and c: "buf (collectorChan demo_pipeline) = demo_event # []"
    by (simp_all add: demo_pipeline_def)
  from normalizer_copies_fields [OF a b c] show ?thesis
    by (simp add: demo_event_def)
qed

text \<open>
  C6 as stated fails: the record built from an event carries no creation timestamp
  added at normalization; its \<^verbatim>\<open>CreatedAt\<close> is Go's zero time.
\<close>

theorem normalizer_adds_no_timestamp:
  "workers (worker_step 0 demo_pipeline) = [Sending demo_log] \<and>
   log_Timestamp demo_log = 1700000000000000000 \<and>
   log_CreatedAt demo_log = 0"
  by (simp add: demo_pipeline_def demo_log_def demo_event_def worker_step_def process_step_def
      recv_def normalize_def)

text \<open>
  C2 on the code. \<^verbatim>\<open>main\<close> stops the publisher and then calls
  \<^verbatim>\<open>normalizer.Close()\<close>, before it closes the intake queue. In the pipeline with
  one worker and one event waiting, \<^verbatim>\<open>Close\<close> returns with the output queue closed
  and the worker still in its loop, and so does the whole shutdown sequence; the worker
  then takes the event and panics when it sends the record on the closed queue.
\<close>

theorem close_before_workers_exit:
  "pipeline_Collect demo_event (Normalizer_Start 1 (initializePipeline 1)) =
     Returned demo_pipeline \<and>
   Normalizer_Close demo_pipeline = Returned demo_closed \<and>
   closed (normalizerOutputChan demo_closed) \<and>
   workers demo_closed = [AtRange] \<and>
   live AtRange \<and>
   workers (worker_step 0 (worker_step 0 demo_closed)) = [Crashed] \<and>
   main_shutdown demo_pipeline = Returned demo_shut \<and>
   workers demo_shut = [AtRange] \<and>
   workers (worker_step 0 demo_shut) = [Sending demo_log] \<and>
   workers (worker_step 0 (worker_step 0 demo_shut)) = [Crashed]"
  by (simp add: demo_pipeline_def demo_closed_def demo_shut_def demo_log_def pipeline_Collect_def
      Collect_def try_send_def initializePipeline_def make_chan_def Normalizer_Start_def
      Normalizer_Close_def main_shutdown_def close_chan_def worker_step_def process_step_def
      recv_def live_def)

section \<open>Properties of the publisher\<close>

lemma processBatch_loop_exited: "exited p \<Longrightarrow> processBatch_loop p sched = p"
  unfolding processBatch_loop_def
  by (induction sched) (simp_all add: processBatch_step_def)

lemma processBatch_step_cancelled:
  "cancelled p \<Longrightarrow> cancelled (processBatch_step p c)"
  by (auto simp: processBatch_step_def processBatch_return_def flush_and_reset_def
      flushBatch_def Let_def split: select_case.splits option.splits outcome.splits)

lemma processBatch_loop_cancelled:
  "cancelled p \<Longrightarrow> cancelled (processBatch_loop p sched)"
  unfolding processBatch_loop_def
  by (induction sched arbitrary: p) (simp_all add: processBatch_step_cancelled)

text \<open>
  With a batch size that \<^verbatim>\<open>make\<close> refuses the goroutine panics at its first
  statement, whatever the schedule: nothing is flushed and the loop never runs.
\<close>

lemma processBatch_refused_size:
  assumes "batchSize p < 0 \<or> 2 ^ 48 < 8 * batchSize p"
  shows "processBatch p sched = p\<lparr>exited := True, panicked := True\<rparr>"
proof -
  have "processBatch_begin p = p\<lparr>exited := True, panicked := True\<rparr>"
    using assms by (auto simp: processBatch_begin_def make_batch_def)
  then show ?thesis by (simp add: processBatch_def processBatch_loop_exited)
qed

text \<open>
  C8. Let the goroutine of a publisher, started from \<open>p\<^sub>0\<close>, have run through the
  cases \<open>before\<close> when \<^verbatim>\<open>Stop\<close> cancels the context, let the loop then run through
  any cases \<open>pre\<close>, and let \<open>r\<close> be its state after them, the loop still running. When
  the \<^verbatim>\<open>select\<close> takes the cancellation case the loop returns: if the pending batch
  of \<open>r\<close> is not empty, \<^verbatim>\<open>SaveTrafficLogs\<close> is called once more, with exactly that
  batch (and a context that is already cancelled); if it is empty there is no further
  call. Nothing the schedule holds after that changes the state.
\<close>

theorem publisher_final_flush:
  assumes "p = processBatch p\<^sub>0 before"
    and "r = processBatch_loop (p\<lparr>cancelled := True\<rparr>) pre"
    and "\<not> exited r"
  shows "Publisher_Stop p (pre @ CtxDone # post) =
           r\<lparr>saved := saved r @ (if batch r = [] then [] else [(batch r, True)]),
             tickerStopped := True, exited := True\<rparr>"
proof -
  have c: "cancelled r" using assms(2) by (simp add: processBatch_loop_cancelled)
  let ?q = "processBatch_step r CtxDone"
  have q: "?q = r\<lparr>saved := saved r @ (if batch r = [] then [] else [(batch r, True)]),
             tickerStopped := True, exited := True\<rparr>"
    using c assms(3) by (simp add: processBatch_step_def processBatch_return_def flushBatch_def)
  have "Publisher_Stop p (pre @ CtxDone # post) = processBatch_loop ?q post"
    using assms(2) by (simp add: Publisher_Stop_def processBatch_loop_def)
  also have "\<dots> = ?q" by (rule processBatch_loop_exited) (simp add: q)
  finally show ?thesis using q by simp
qed

theorem publisher_final_flush_witness:
  "NewPublisher 100 5000 = Returned demo_publisher \<and>
   Publisher_Stop (processBatch demo_publisher [RecvLog (Some demo_log)]) [Tick, CtxDone, Tick] =
     demo_publisher\<lparr>batch := [], saved := [([demo_log], True)], cancelled := True,
       tickerStopped := True, exited := True\<rparr> \<and>
   Publisher_Stop (processBatch demo_publisher [RecvLog (Some demo_log)]) [CtxDone, Tick] =
     demo_publisher\<lparr>batch := [demo_log], saved := [([demo_log], True)], cancelled := True,
       tickerStopped := True, exited := True\<rparr>"
proof -
  let ?p = "demo_publisher\<lparr>batch := [demo_log]\<rparr>"
  let ?r1 = "demo_publisher\<lparr>batch := [], saved := [([demo_log], True)], cancelled := True\<rparr>"
  let ?r2 = "demo_publisher\<lparr>batch := [demo_log], cancelled := True\<rparr>"
  have new: "NewPublisher 100 5000 = Returned demo_publisher"
    by (simp add: NewPublisher_def demo_publisher_def)
  have run: "processBatch demo_publisher [RecvLog (Some demo_log)] = ?p"
    by (simp add: processBatch_def processBatch_loop_def processBatch_begin_def make_batch_def
        processBatch_step_def demo_publisher_def)
  have p: "?p = processBatch demo_publisher [RecvLog (Some demo_log)]"
    by (simp only: run)
  have r1: "?r1 = processBatch_loop (?p\<lparr>cancelled := True\<rparr>) [Tick]"
    by (simp add: processBatch_loop_def processBatch_step_def flush_and_reset_def make_batch_def
        flushBatch_def demo_publisher_def)
  have r2: "?r2 = processBatch_loop (?p\<lparr>cancelled := True\<rparr>) []"
    by (simp add: processBatch_loop_def)
  have n1: "\<not> exited ?r1" and n2: "\<not> exited ?r2" by (simp_all add: demo_publisher_def)
  have sv: "saved demo_publisher = []" by (simp add: demo_publisher_def)
  from publisher_final_flush [OF p r1 n1, of "[Tick]"] publisher_final_flush [OF p r2 n2, of "[Tick]"]
       new
  show ?thesis by (simp add: run sv)
qed

section \<open>Properties of the proxy session\<close>

text \<open>
  The configuration \<^verbatim>\<open>Start\<close> hands to the library does not depend on the
  admission options of the server's configuration.
\<close>

lemma Start_ignores_admission_options: "fst (Start (s\<lparr>cfg := c\<rparr>)) = fst (Start s)"
  by (simp add: Start_def)

text \<open>
  C1 on the code. The server is configured so that every gate would refuse the client:
  the pool has no free slot, the client does not have the configured credentials and
  the whitelist does not list its address. The session is served all the same: it
  negotiates, relays and, at close, its event is in the collector's queue.
\<close>

theorem refused_client_is_relayed:
  "\<not> fst (AddConnection (NewConnectionPool (MaxConnections demo_cfg))) \<and>
   \<not> Authenticate (NewAuthenticator (Auth_Username demo_cfg) (Auth_Password demo_cfg))
        (client_user demo_input) (client_pass demo_input) \<and>
   \<not> IsAllowed (NewIPWhitelist (IPWhitelist_ips demo_cfg)) (client_ip demo_input) \<and>
   proxy_session demo_parse (NewServer demo_cfg (make_chan 10)) demo_input =
     ([Pending, Negotiating, Relaying, Closed],
      Returned (NewServer demo_cfg
        \<lparr>buf = [\<lparr>SourceIP = ''93.184.216.34'', DestinationIP = ''93.184.216.34'', Domain = [],
                  Port = 443, Timestamp = 1700000000000000000, LatencyMs = 25, BytesIn = 2048,
                  BytesOut = 120, Protocol = ''tcp''\<rparr>],
         cap = 10, closed = False\<rparr>))"
  by (simp add: demo_cfg_def demo_input_def demo_parse_def AddConnection_def NewConnectionPool_def
      Authenticate_def NewAuthenticator_def IsAllowed_def NewIPWhitelist_def serve_session_def
      proxy_session_def Start_def
      dialWithTracking_def trackedConn_Close_def Collect_def try_send_def make_chan_def
      NewServer_def close_event_def trackedConn_Read_def trackedConn_Write_def Milliseconds_def)

end
